theory Spec2Isabelle
  imports Complex_Main
begin

section \<open>The image uploader of Re-Thing: data model\<close>

text \<open>
  The component \<^verbatim>\<open>ImageUploader\<close> of \<^verbatim>\<open>src/components/image-uploader.tsx\<close> is a React
  function component: eight pieces of pipeline state (\<^verbatim>\<open>useState\<close>), three view flags, and
  two mutable references (\<^verbatim>\<open>useRef\<close>) that survive re-renders. Its handlers run to completion
  on a single thread; \<^verbatim>\<open>processImage\<close> is the only \<^verbatim>\<open>async\<close> function and suspends once, at
  \<^verbatim>\<open>await removeBackground(...)\<close>. The model is a state record and one function per handler;
  \<^verbatim>\<open>processImage\<close> is cut at its \<^verbatim>\<open>await\<close> into the part that runs before it and the part that
  runs when the promise settles. The browser objects the handlers touch (object URLs, abort
  controllers, file readers, the pending calls of the library, the console, the download link)
  are fields of the same record.
\<close>

subsection \<open>JavaScript numbers\<close>

text \<open>
  The progress value is a JavaScript number, that is an IEEE 754 double, computed by a
  division and a multiplication. A finite double is written \<open>Num x\<close> with \<open>x\<close> its value
  (\<open>Num 0\<close> is the positive zero); the negative zero, NaN and the two infinities are values
  of their own. An arithmetic operation computes the exact result and rounds it to the
  nearest double, ties to the even significand, as \<open>to_double\<close> does. The operations are
  defined for every real under \<open>Num\<close>; on the doubles they are the machine's.
\<close>

datatype jsnum = Num real | NegZero | NaN | PosInf | NegInf

text \<open>The number of binary digits of a positive integer.\<close>

function bits :: "int \<Rightarrow> int" where
  "bits n = (if n \<le> 0 then 0 else 1 + bits (n div 2))"
  by pat_completeness auto
termination
  by (relation "measure nat") auto

declare bits.simps [simp del]

text \<open>
  The binary exponent of a positive real \<open>a\<close>: the integer \<open>k\<close> with
  \<open>2 powi k \<le> a < 2 powi (k + 1)\<close>.
\<close>

definition ilog2 :: "real \<Rightarrow> int" where
  "ilog2 a = (if 1 \<le> a then bits \<lfloor>a\<rfloor> - 1 else - bits (\<lceil>1 / a\<rceil> - 1))"

text \<open>The nearest integer, a tie going to the even one.\<close>

definition round_even :: "real \<Rightarrow> int" where
  "round_even r =
     (let f = \<lfloor>r\<rfloor>; d = r - of_int f
      in if d < 1 / 2 then f
         else if 1 / 2 < d then f + 1
         else if even f then f else f + 1)"

text \<open>
  Rounding an exact result to a double. The significand has 53 digits, so the spacing of
  the doubles around \<open>x\<close> is \<open>2 powi (e - 52)\<close> for the exponent \<open>e\<close> of \<open>x\<close>, which is
  never taken below \<open>- 1022\<close> (the subnormal range). A result that rounds to \<open>2 powi 1024\<close>
  or more is infinite; one that rounds to nothing is a zero with the sign of \<open>x\<close>.
\<close>

definition to_double :: "real \<Rightarrow> jsnum" where
  "to_double x =
     (let a = \<bar>x\<bar>;
          e = max (ilog2 a) (- 1022);
          u = 2 powi (e - 52);
          n = round_even (a / u);
          v = of_int n * u
      in if x = 0 then Num 0
         else if 2 powi 1024 \<le> v then (if x < 0 then NegInf else PosInf)
         else if n = 0 then (if x < 0 then NegZero else Num 0)
         else Num (if x < 0 then - v else v))"

text \<open>The sign bit, the two zeros, the two infinities, and the value of a finite number.\<close>

fun is_neg :: "jsnum \<Rightarrow> bool" where
  "is_neg (Num x) = (x < 0)"
| "is_neg NegZero = True"
| "is_neg NaN = False"
| "is_neg PosInf = False"
| "is_neg NegInf = True"

fun is_zero :: "jsnum \<Rightarrow> bool" where
  "is_zero (Num x) = (x = 0)"
| "is_zero NegZero = True"
| "is_zero NaN = False"
| "is_zero PosInf = False"
| "is_zero NegInf = False"

fun is_inf :: "jsnum \<Rightarrow> bool" where
  "is_inf (Num x) = False"
| "is_inf NegZero = False"
| "is_inf NaN = False"
| "is_inf PosInf = True"
| "is_inf NegInf = True"

fun finite_value :: "jsnum \<Rightarrow> real" where
  "finite_value (Num x) = x"
| "finite_value NegZero = 0"
| "finite_value NaN = 0"
| "finite_value PosInf = 0"
| "finite_value NegInf = 0"

definition signed_zero :: "bool \<Rightarrow> jsnum" where
  "signed_zero neg = (if neg then NegZero else Num 0)"

definition signed_inf :: "bool \<Rightarrow> jsnum" where
  "signed_inf neg = (if neg then NegInf else PosInf)"

text \<open>
  \<^verbatim>\<open>x / y\<close>. NaN for a NaN operand, for two infinities and for two zeros; an infinity for
  an infinite \<^verbatim>\<open>x\<close> and for a division of a non-zero number by a zero; a zero for an
  infinite \<^verbatim>\<open>y\<close> and for a zero \<^verbatim>\<open>x\<close>; the sign is then negative when exactly one operand is
  negative. Otherwise the rounded quotient.
\<close>

definition js_div :: "jsnum \<Rightarrow> jsnum \<Rightarrow> jsnum" where
  "js_div x y =
     (if x = NaN \<or> y = NaN then NaN
      else if is_inf x then (if is_inf y then NaN else signed_inf (is_neg x \<noteq> is_neg y))
      else if is_inf y then signed_zero (is_neg x \<noteq> is_neg y)
      else if is_zero y then (if is_zero x then NaN else signed_inf (is_neg x \<noteq> is_neg y))
      else if is_zero x then signed_zero (is_neg x \<noteq> is_neg y)
      else to_double (finite_value x / finite_value y))"

text \<open>
  \<^verbatim>\<open>x * y\<close>. NaN for a NaN operand and for an infinity times a zero; an infinity for an
  infinite operand otherwise; a zero for a zero operand; else the rounded product.
\<close>

definition js_mul :: "jsnum \<Rightarrow> jsnum \<Rightarrow> jsnum" where
  "js_mul x y =
     (if x = NaN \<or> y = NaN then NaN
      else if is_inf x \<or> is_inf y then
        (if is_zero x \<or> is_zero y then NaN else signed_inf (is_neg x \<noteq> is_neg y))
      else if is_zero x \<or> is_zero y then signed_zero (is_neg x \<noteq> is_neg y)
      else to_double (finite_value x * finite_value y))"

text \<open>\<^verbatim>\<open>Math.max(4, x)\<close>: NaN for NaN, otherwise the larger of the two.\<close>

fun js_max4 :: "jsnum \<Rightarrow> jsnum" where
  "js_max4 (Num x) = Num (max 4 x)"
| "js_max4 NegZero = Num 4"
| "js_max4 NaN = NaN"
| "js_max4 PosInf = PosInf"
| "js_max4 NegInf = Num 4"

text \<open>
  \<^verbatim>\<open>Math.round(x)\<close>: the integer nearest to \<^verbatim>\<open>x\<close>, a half going up; the negative zero for
  a negative \<^verbatim>\<open>x\<close> from \<^verbatim>\<open>-0.5\<close> on; NaN, the infinities and the negative zero are kept.
\<close>

fun js_round :: "jsnum \<Rightarrow> jsnum" where
  "js_round (Num x) = (if x < 0 \<and> - 1 / 2 \<le> x then NegZero else Num (of_int \<lfloor>x + 1 / 2\<rfloor>))"
| "js_round NegZero = NegZero"
| "js_round NaN = NaN"
| "js_round PosInf = PosInf"
| "js_round NegInf = NegInf"

subsection \<open>Files, thrown values, the state\<close>

text \<open>A \<^verbatim>\<open>File\<close> as far as the component reads it: \<^verbatim>\<open>name\<close>, \<^verbatim>\<open>type\<close>, \<^verbatim>\<open>size\<close>.\<close>

record File =
  file_name :: string
  file_type :: string
  file_size :: nat

text \<open>
  What the \<^verbatim>\<open>try\<close> block of \<^verbatim>\<open>validateAndProcessFile\<close> can throw, as its \<^verbatim>\<open>catch\<close> tells
  them apart: a \<^verbatim>\<open>z.ZodError\<close> or anything else.
\<close>

datatype exn = ZodError | OtherError

text \<open>
  What \<^verbatim>\<open>removeBackground\<close> can reject with, as the \<^verbatim>\<open>catch\<close> of \<^verbatim>\<open>processImage\<close> tells
  them apart: an \<^verbatim>\<open>Error\<close> with its \<^verbatim>\<open>name\<close> and \<^verbatim>\<open>message\<close>, or a value that is no
  \<^verbatim>\<open>Error\<close>.
\<close>

datatype thrown = Error string string | NonError

text \<open>How a call of \<^verbatim>\<open>removeBackground\<close> settles: with a blob, or with a thrown value.\<close>

type_synonym blob = string

datatype outcome = Resolved blob | Rejected thrown

text \<open>Object URLs are numbered in the order \<^verbatim>\<open>URL.createObjectURL\<close> hands them out.\<close>

type_synonym url = nat

record state =
  image_src :: "string option"
  processedImage :: "url option"
  fileName :: "string option"
  fileSize :: "nat option"
  isDragging :: bool
  error :: "string option"
  isProcessing :: bool
  progress :: jsnum
  useCheckerboard :: bool
  originalLoaded :: bool
  processedLoaded :: bool
  abortControllerRef :: "nat option"
  processedUrlRef :: "url option"
  controllers :: "bool list"
  objectUrls :: "(url \<times> blob) list"
  revoked :: "url list"
  nextUrl :: nat
  readers :: "(nat \<times> File) list"
  nextReader :: nat
  jobs :: "(nat \<times> string) list"
  nextJob :: nat
  console :: "thrown list"
  downloads :: "(url \<times> string) list"

text \<open>
  \<^item> \<open>image_src\<close> is the state \<^verbatim>\<open>image\<close> (a data URL); the other state fields and the two
    references keep their names.
  \<^item> \<open>controllers\<close> holds the \<^verbatim>\<open>aborted\<close> flag of every \<^verbatim>\<open>AbortController\<close> created,
    \<open>abortControllerRef\<close> the index of the current one.
  \<^item> \<open>objectUrls\<close> are the object URLs that are live, each with its blob; \<open>revoked\<close> logs
    every call of \<^verbatim>\<open>URL.revokeObjectURL\<close>, latest last.
  \<^item> \<open>readers\<close> are the \<^verbatim>\<open>FileReader\<close>s that have been started and have fired neither
    \<^verbatim>\<open>onload\<close> nor \<^verbatim>\<open>onerror\<close>; \<open>jobs\<close> are the calls of \<^verbatim>\<open>removeBackground\<close> that have
    not settled, each with the image URL it was given.
  \<^item> \<open>console\<close> logs the values passed to \<^verbatim>\<open>console.error\<close>; \<open>downloads\<close> logs the
    clicks on the download link, with its \<^verbatim>\<open>href\<close> and its \<^verbatim>\<open>download\<close> name.
  The scroll lock on the document element and the value of the file input are not modelled.
\<close>

definition init :: state where
  "init = \<lparr> image_src = None, processedImage = None, fileName = None, fileSize = None,
      isDragging = False, error = None, isProcessing = False, progress = Num 0,
      useCheckerboard = True, originalLoaded = False, processedLoaded = False,
      abortControllerRef = None, processedUrlRef = None,
      controllers = [], objectUrls = [], revoked = [], nextUrl = 0,
      readers = [], nextReader = 0, jobs = [], nextJob = 0,
      console = [], downloads = [] \<rparr>"

section \<open>The validator\<close>

definition ALLOWED_FILE_TYPES :: "string list" where
  "ALLOWED_FILE_TYPES = [''image/png'', ''image/jpeg'', ''image/webp'']"

text \<open>
  \<^verbatim>\<open>imageFileSchema.parse({type, size})\<close>: the parsed object, or a \<^verbatim>\<open>ZodError\<close> when the type
  is not one of the enumeration or the size is above \<^verbatim>\<open>5 * 1024 * 1024\<close>.
\<close>

definition imageFileSchema_parse :: "string \<Rightarrow> nat \<Rightarrow> exn + (string \<times> nat)" where
  "imageFileSchema_parse t n =
     (if t \<in> set ALLOWED_FILE_TYPES \<and> n \<le> 5 * 1024 * 1024 then Inr (t, n)
      else Inl ZodError)"

text \<open>The \<^verbatim>\<open>catch\<close> block of \<^verbatim>\<open>validateAndProcessFile\<close>: the message for a thrown value.\<close>

fun catch_message :: "exn \<Rightarrow> string" where
  "catch_message ZodError = ''Please upload a valid PNG, JPG, or WEBP image (max 5MB).''"
| "catch_message OtherError = ''Invalid file. Please try a different image.''"

section \<open>The handlers\<close>

text \<open>\<^verbatim>\<open>URL.revokeObjectURL(u)\<close>: the URL stops being live, and the call is logged.\<close>

definition revokeObjectURL :: "url \<Rightarrow> state \<Rightarrow> state" where
  "revokeObjectURL u s =
     s\<lparr> objectUrls := filter (\<lambda>p. fst p \<noteq> u) (objectUrls s), revoked := revoked s @ [u] \<rparr>"

text \<open>
  The guarded release that \<^verbatim>\<open>processImage\<close>, \<^verbatim>\<open>clearImage\<close> and the unmount effect share:
  \<^verbatim>\<open>if (processedUrlRef.current) { URL.revokeObjectURL(...); processedUrlRef.current = null; }\<close>
\<close>

definition release_processed :: "state \<Rightarrow> state" where
  "release_processed s =
     (case processedUrlRef s of
        None \<Rightarrow> s
      | Some u \<Rightarrow> (revokeObjectURL u s)\<lparr> processedUrlRef := None \<rparr>)"

text \<open>\<^verbatim>\<open>if (abortControllerRef.current) abortControllerRef.current.abort();\<close>\<close>

definition abort_current :: "state \<Rightarrow> state" where
  "abort_current s =
     (case abortControllerRef s of
        None \<Rightarrow> s
      | Some c \<Rightarrow> s\<lparr> controllers := (controllers s)[c := True] \<rparr>)"

text \<open>
  \<^verbatim>\<open>processImage\<close> up to its \<^verbatim>\<open>await\<close>: the current controller is aborted, a new one takes
  its place, the state is set to running, and \<^verbatim>\<open>removeBackground\<close> is called with the image
  URL and the options \<^verbatim>\<open>progress\<close>, \<^verbatim>\<open>output\<close>, \<^verbatim>\<open>model\<close>, \<^verbatim>\<open>debug\<close>. The signal of the new
  controller is not among the arguments, so a pending call carries no controller.
\<close>

definition processImage_start :: "string \<Rightarrow> state \<Rightarrow> state" where
  "processImage_start imageUrl s0 =
     (let s1 = abort_current s0;
          s2 = s1\<lparr> abortControllerRef := Some (length (controllers s1)),
                   controllers := controllers s1 @ [False] \<rparr>;
          s3 = s2\<lparr> isProcessing := True, progress := Num 0, error := None,
                   processedLoaded := False \<rparr>
      in s3\<lparr> jobs := jobs s3 @ [(nextJob s3, imageUrl)], nextJob := Suc (nextJob s3) \<rparr>)"

text \<open>The \<^verbatim>\<open>progress\<close> callback: \<^verbatim>\<open>const pct = (current / total) * 100; setProgress(pct);\<close>\<close>

definition progress_pct :: "jsnum \<Rightarrow> jsnum \<Rightarrow> jsnum" where
  "progress_pct current tot = js_mul (js_div current tot) (Num 100)"

definition onProgress :: "string \<Rightarrow> jsnum \<Rightarrow> jsnum \<Rightarrow> state \<Rightarrow> state" where
  "onProgress key current tot s = s\<lparr> progress := progress_pct current tot \<rparr>"

text \<open>
  \<^verbatim>\<open>err instanceof Error && err.name === "AbortError"\<close>, and the message of the other branch.
\<close>

fun is_abort :: "thrown \<Rightarrow> bool" where
  "is_abort (Error n m) = (n = ''AbortError'')"
| "is_abort NonError = False"

fun failure_message :: "thrown \<Rightarrow> string" where
  "failure_message (Error n m) = ''Failed to remove background: '' @ m"
| "failure_message NonError = ''Failed to remove background. Please try again.''"

text \<open>The \<^verbatim>\<open>finally\<close> block of \<^verbatim>\<open>processImage\<close>.\<close>

definition processImage_finally :: "state \<Rightarrow> state" where
  "processImage_finally s =
     s\<lparr> isProcessing := False, progress := Num 0, abortControllerRef := None \<rparr>"

text \<open>
  \<^verbatim>\<open>processImage\<close> from its \<^verbatim>\<open>await\<close> on. A blob: the previous object URL is released, a new
  one is created for the blob and stored in the reference and in the state. A thrown value:
  the \<^verbatim>\<open>catch\<close> block. Then the \<^verbatim>\<open>finally\<close> block. Nothing here reads a controller.
\<close>

definition processImage_resume :: "outcome \<Rightarrow> state \<Rightarrow> state" where
  "processImage_resume out s =
     processImage_finally
       (case out of
          Resolved b \<Rightarrow>
            (let s1 = release_processed s;
                 u = nextUrl s1
             in s1\<lparr> objectUrls := objectUrls s1 @ [(u, b)], nextUrl := Suc u,
                     processedUrlRef := Some u, processedImage := Some u \<rparr>)
        | Rejected err \<Rightarrow>
            (if is_abort err then s
             else s\<lparr> console := console s @ [err], error := Some (failure_message err) \<rparr>))"

text \<open>The two handlers of the \<^verbatim>\<open>FileReader\<close>.\<close>

definition reader_onload :: "string \<Rightarrow> state \<Rightarrow> state" where
  "reader_onload imageUrl s = processImage_start imageUrl (s\<lparr> image_src := Some imageUrl \<rparr>)"

definition reader_onerror :: "state \<Rightarrow> state" where
  "reader_onerror s = s\<lparr> error := Some ''Failed to read the file. Please try again.'' \<rparr>"

text \<open>
  \<^verbatim>\<open>validateAndProcessFile\<close>. The parse is the first statement of the \<^verbatim>\<open>try\<close> block; when it
  throws, only the \<^verbatim>\<open>catch\<close> block runs. Otherwise the session fields are set and a reader
  is started on the file.
\<close>

definition validateAndProcessFile :: "File \<Rightarrow> state \<Rightarrow> state" where
  "validateAndProcessFile f s =
     (case imageFileSchema_parse (file_type f) (file_size f) of
        Inl e \<Rightarrow> s\<lparr> error := Some (catch_message e) \<rparr>
      | Inr _ \<Rightarrow>
          s\<lparr> fileName := Some (file_name f), fileSize := Some (file_size f), error := None,
             originalLoaded := False, processedLoaded := False, processedImage := None,
             readers := readers s @ [(nextReader s, f)], nextReader := Suc (nextReader s) \<rparr>)"




text \<open>\<^verbatim>\<open>const file = files?.[0]; if (file) validateAndProcessFile(file);\<close>\<close>

definition handleFileChange :: "File list \<Rightarrow> state \<Rightarrow> state" where
  "handleFileChange files s =
     (case files of [] \<Rightarrow> s | f # _ \<Rightarrow> validateAndProcessFile f s)"

definition handleDragOver :: "state \<Rightarrow> state" where
  "handleDragOver s = s\<lparr> isDragging := True \<rparr>"

definition handleDragLeave :: "state \<Rightarrow> state" where
  "handleDragLeave s = s\<lparr> isDragging := False \<rparr>"

definition handleDrop :: "File list \<Rightarrow> state \<Rightarrow> state" where
  "handleDrop files s = handleFileChange files (s\<lparr> isDragging := False \<rparr>)"

definition clearImage :: "state \<Rightarrow> state" where
  "clearImage s =
     (release_processed (abort_current s))
       \<lparr> image_src := None, processedImage := None, fileName := None, fileSize := None,
         error := None, isProcessing := False, progress := Num 0,
         originalLoaded := False, processedLoaded := False \<rparr>"

text \<open>The cleanup of the unmount effect.\<close>

definition unmount :: "state \<Rightarrow> state" where
  "unmount s = release_processed s"

subsection \<open>The download name\<close>

text \<open>
  \<^verbatim>\<open>fileName.replace(/\.[^/.]+$/, "")\<close>. The pattern is a dot, then one or more characters
  that are neither a slash nor a dot, then the end of the string. \<open>ext_match\<close> says that the
  pattern matches the whole of a string; \<open>strip_ext\<close> looks for the leftmost position where
  it matches the rest, as \<^verbatim>\<open>replace\<close> does, and removes the match.
\<close>

definition ext_char :: "char \<Rightarrow> bool" where
  "ext_char c = (c \<noteq> CHR ''/'' \<and> c \<noteq> CHR ''.'')"

fun ext_match :: "string \<Rightarrow> bool" where
  "ext_match [] = False"
| "ext_match (c # cs) = (c = CHR ''.'' \<and> cs \<noteq> [] \<and> list_all ext_char cs)"

fun strip_ext :: "string \<Rightarrow> string" where
  "strip_ext [] = []"
| "strip_ext (c # cs) = (if ext_match (c # cs) then [] else c # strip_ext cs)"

text \<open>
  \<^verbatim>\<open>fileName ? fileName.replace(...) : "background-removed"\<close>: an absent name and the empty
  name are both falsy.
\<close>

definition baseName :: "string option \<Rightarrow> string" where
  "baseName fn =
     (case fn of
        None \<Rightarrow> ''background-removed''
      | Some n \<Rightarrow> if n = [] then ''background-removed'' else strip_ext n)"

text \<open>
  \<^verbatim>\<open>handleDownload\<close>: nothing without a processed image; otherwise a link to it is clicked,
  with the download name \<^verbatim>\<open>`${baseName}.png`\<close>. (An object URL is never the empty string, so
  \<^verbatim>\<open>!processedImage\<close> is the test for \<^verbatim>\<open>null\<close>.)
\<close>

definition handleDownload :: "state \<Rightarrow> state" where
  "handleDownload s =
     (case processedImage s of
        None \<Rightarrow> s
      | Some u \<Rightarrow> s\<lparr> downloads := downloads s @ [(u, baseName (fileName s) @ ''.png'')] \<rparr>)"

subsection \<open>What the progress indicator shows\<close>

text \<open>
  The bar is rendered when \<^verbatim>\<open>image\<close> is set and \<^verbatim>\<open>isProcessing\<close> holds; its width is
  \<^verbatim>\<open>Math.max(4, progress)\<close> percent, and the label beside it is \<^verbatim>\<open>Math.round(progress)\<close>.
\<close>

definition bar_width :: "state \<Rightarrow> jsnum option" where
  "bar_width s =
     (if image_src s \<noteq> None \<and> isProcessing s then Some (js_max4 (progress s)) else None)"

definition progress_label :: "state \<Rightarrow> jsnum option" where
  "progress_label s =
     (if image_src s \<noteq> None \<and> isProcessing s then Some (js_round (progress s)) else None)"

section \<open>Events\<close>

text \<open>
  Everything that makes a handler run: the user's gestures, a reader finishing, the library
  reporting progress or settling a call, the images of the preview finishing to load, and the
  component being unmounted. A reader or a call that is not pending cannot fire, so such an
  event leaves the state as it is. A reader fires one of its two handlers once; a call
  settles once.
\<close>

datatype event =
    FileChange "File list"
  | Drop "File list"
  | DragOver
  | DragLeave
  | ReaderLoad nat string
  | ReaderError nat
  | Progress nat string jsnum jsnum
  | JobDone nat outcome
  | Clear
  | Download
  | ToggleCheckerboard
  | OriginalLoad
  | ProcessedLoad
  | Unmount

definition pending :: "nat \<Rightarrow> (nat \<times> 'a) list \<Rightarrow> bool" where
  "pending i xs = (i \<in> set (map fst xs))"

definition remove :: "nat \<Rightarrow> (nat \<times> 'a) list \<Rightarrow> (nat \<times> 'a) list" where
  "remove i xs = filter (\<lambda>p. fst p \<noteq> i) xs"

fun step :: "event \<Rightarrow> state \<Rightarrow> state" where
  "step (FileChange files) s = handleFileChange files s"
| "step (Drop files) s = handleDrop files s"
| "step DragOver s = handleDragOver s"
| "step DragLeave s = handleDragLeave s"
| "step (ReaderLoad r imageUrl) s =
     (if pending r (readers s)
      then reader_onload imageUrl (s\<lparr> readers := remove r (readers s) \<rparr>) else s)"
| "step (ReaderError r) s =
     (if pending r (readers s)
      then reader_onerror (s\<lparr> readers := remove r (readers s) \<rparr>) else s)"
| "step (Progress j key current tot) s =
     (if pending j (jobs s) then onProgress key current tot s else s)"
| "step (JobDone j out) s =
     (if pending j (jobs s)
      then processImage_resume out (s\<lparr> jobs := remove j (jobs s) \<rparr>) else s)"
| "step Clear s = clearImage s"
| "step Download s = handleDownload s"
| "step ToggleCheckerboard s = s\<lparr> useCheckerboard := \<not> useCheckerboard s \<rparr>"
| "step OriginalLoad s = s\<lparr> originalLoaded := True \<rparr>"
| "step ProcessedLoad s = s\<lparr> processedLoaded := True \<rparr>"
| "step Unmount s = unmount s"

fun run :: "event list \<Rightarrow> state \<Rightarrow> state" where
  "run [] s = s"
| "run (e # es) s = run es (step e s)"

subsection \<open>How a call of the library ends, read from the state\<close>

text \<open>
  Three observations on the state before and after \<^verbatim>\<open>processImage\<close> resumes: a new object
  URL was created and is the processed image; a value was logged on the console and the
  error is a message that starts with \<^verbatim>\<open>Failed to remove background\<close>; or neither the object URLs, nor the processed image, nor the
  console, nor the error has changed.
\<close>

definition artifact_produced :: "state \<Rightarrow> state \<Rightarrow> bool" where
  "artifact_produced s s' =
     (nextUrl s' = Suc (nextUrl s) \<and> processedUrlRef s' = Some (nextUrl s)
      \<and> processedImage s' = Some (nextUrl s) \<and> nextUrl s \<in> set (map fst (objectUrls s')))"

definition failure_surfaced :: "state \<Rightarrow> state \<Rightarrow> bool" where
  "failure_surfaced s s' =
     (console s' \<noteq> [] \<and> butlast (console s') = console s
      \<and> (case error s' of
            None \<Rightarrow> False
          | Some m \<Rightarrow> take 27 m = ''Failed to remove background''))"

definition silently_cancelled :: "state \<Rightarrow> state \<Rightarrow> bool" where
  "silently_cancelled s s' =
     (nextUrl s' = nextUrl s \<and> objectUrls s' = objectUrls s \<and> revoked s' = revoked s
      \<and> processedUrlRef s' = processedUrlRef s \<and> processedImage s' = processedImage s
      \<and> console s' = console s \<and> error s' = error s)"

subsection \<open>The object URLs in order\<close>

text \<open>
  The live object URLs are exactly the one the reference \<^verbatim>\<open>processedUrlRef\<close> holds, if it
  holds one; no URL was revoked twice; every URL that was handed out is below the counter;
  and no live URL has been revoked.
\<close>

definition live_ok :: "state \<Rightarrow> bool" where
  "live_ok s =
     (map fst (objectUrls s) = (case processedUrlRef s of None \<Rightarrow> [] | Some u \<Rightarrow> [u])
      \<and> distinct (revoked s)
      \<and> list_all (\<lambda>u. u < nextUrl s) (revoked s)
      \<and> list_all (\<lambda>u. u < nextUrl s \<and> u \<notin> set (revoked s)) (map fst (objectUrls s)))"

section \<open>Sample inputs\<close>

definition photo_jpg :: File where
  "photo_jpg = \<lparr> file_name = ''photo.jpg'', file_type = ''image/jpeg'', file_size = 2097152 \<rparr>"

definition huge_png :: File where
  "huge_png = \<lparr> file_name = ''huge.png'', file_type = ''image/png'', file_size = 8388608 \<rparr>"


text \<open>The state after \<^verbatim>\<open>photo.jpg\<close> has been submitted, read and processed with success.\<close>

definition shown :: state where
  "shown = run [FileChange [photo_jpg], ReaderLoad 0 ''data:photo'',
                JobDone 0 (Resolved ''cutout'')] init"

text \<open>The state once \<^verbatim>\<open>photo.jpg\<close> has been submitted, and the state once it has been read.\<close>

definition reading :: state where
  "reading = run [FileChange [photo_jpg]] init"

definition running :: state where
  "running = run [FileChange [photo_jpg], ReaderLoad 0 ''data:photo''] init"

text \<open>
  Two uploads, \<^verbatim>\<open>a.png\<close> and then \<^verbatim>\<open>b.png\<close>: one after the other, and with \<^verbatim>\<open>b.png\<close>
  submitted while the call for \<^verbatim>\<open>a.png\<close> is pending and settling before it.
\<close>

definition a_png :: File where
  "a_png = \<lparr> file_name = ''a.png'', file_type = ''image/png'', file_size = 1000 \<rparr>"

definition b_png :: File where
  "b_png = \<lparr> file_name = ''b.png'', file_type = ''image/png'', file_size = 2000 \<rparr>"

definition a_then_b :: "event list" where
  "a_then_b = [FileChange [a_png], ReaderLoad 0 ''data:a'', JobDone 0 (Resolved ''cutout-a''),
               FileChange [b_png], ReaderLoad 1 ''data:b'', JobDone 1 (Resolved ''cutout-b'')]"

definition b_overtakes_a :: "event list" where
  "b_overtakes_a = [FileChange [a_png], ReaderLoad 0 ''data:a'',
                    FileChange [b_png], ReaderLoad 1 ''data:b'',
                    JobDone 1 (Resolved ''cutout-b''), JobDone 0 (Resolved ''cutout-a'')]"


section \<open>Rounding to a double\<close>

text \<open>
  \<open>ilog2\<close> is the binary exponent: \<open>2 powi (ilog2 a) \<le> a < 2 powi (ilog2 a + 1)\<close> for a
  positive \<open>a\<close>, and it is the only such integer. With the exponent and the rounded
  significand in hand, \<open>to_double\<close> is evaluated by \<open>to_double_pos\<close>; and a positive result
  below an integer bound that is itself a double stays below it (\<open>to_double_bound\<close>).
\<close>

lemma bits_nonneg: "0 \<le> bits n"
proof (induction n rule: bits.induct)
  case (1 n)
  then show ?case by (subst bits.simps) simp
qed

lemma bits_bounds:
  "0 < n \<Longrightarrow> 2 ^ nat (bits n - 1) \<le> n \<and> n < 2 ^ nat (bits n)"
proof (induction n rule: bits.induct)
  case (1 n)
  show ?case
  proof (cases "n = 1")
    case True
    have "bits 1 = 1" by (subst bits.simps, subst bits.simps, simp)
    with True show ?thesis by simp
  next
    case False
    with "1.prems" have h: "0 < n div 2" by simp
    from "1.IH" [OF _ h] "1.prems"
    have ih: "2 ^ nat (bits (n div 2) - 1) \<le> n div 2" "n div 2 < 2 ^ nat (bits (n div 2))"
      by simp_all
    have b: "bits n = 1 + bits (n div 2)"
      using "1.prems" by (subst bits.simps) simp
    have p: "1 \<le> bits (n div 2)"
      using h by (subst bits.simps) (simp add: bits_nonneg)
    have e1: "nat (bits n - 1) = Suc (nat (bits (n div 2) - 1))"
      using p b by simp
    have e2: "nat (bits n) = Suc (nat (bits (n div 2)))"
      using p b by simp
    from ih(1) have "2 * 2 ^ nat (bits (n div 2) - 1) \<le> 2 * (n div 2)" by simp
    also have "\<dots> \<le> n" by simp
    finally have l: "2 ^ nat (bits n - 1) \<le> n" unfolding e1 by simp
    from ih(2) have "n div 2 + 1 \<le> 2 ^ nat (bits (n div 2))" by simp
    then have "2 * (n div 2) + 2 \<le> 2 * 2 ^ nat (bits (n div 2))" by simp
    moreover have "n < 2 * (n div 2) + 2" by presburger
    ultimately have u: "n < 2 ^ nat (bits n)" unfolding e2 by simp
    from l u show ?thesis by simp
  qed
qed


lemma powi_neg: "0 \<le> k \<Longrightarrow> (2::real) powi (- k) = 1 / 2 ^ nat k"
  by (subst power_int_minus_divide) (simp add: power_int_def)

lemma powi_nonneg: "0 \<le> k \<Longrightarrow> (2::real) powi k = 2 ^ nat k"
  by (simp add: power_int_def)

lemma powi_less_imp: "(2::real) powi i < 2 powi j \<Longrightarrow> i < j"
proof (rule ccontr)
  assume a: "(2::real) powi i < 2 powi j" and "\<not> i < j"
  then have "j \<le> i" by simp
  then have "(2::real) powi j \<le> 2 powi i" by (rule power_int_increasing) simp
  with a show False by simp
qed

lemma ilog2_lower: assumes "0 < a" shows "2 powi (ilog2 a) \<le> a"
proof (cases "1 \<le> a")
  case True
  then have n: "0 < \<lfloor>a\<rfloor>" by linarith
  from bits_bounds [OF n] have "2 ^ nat (bits \<lfloor>a\<rfloor> - 1) \<le> \<lfloor>a\<rfloor>" by simp
  then have "(2::real) ^ nat (bits \<lfloor>a\<rfloor> - 1) \<le> of_int \<lfloor>a\<rfloor>"
    by (metis of_int_le_iff of_int_numeral of_int_power)
  also have "\<dots> \<le> a" by simp
  finally have "(2::real) ^ nat (bits \<lfloor>a\<rfloor> - 1) \<le> a" .
  moreover have "1 \<le> bits \<lfloor>a\<rfloor>"
    using n by (subst bits.simps) (simp add: bits_nonneg)
  ultimately show ?thesis
    using True by (simp add: ilog2_def powi_nonneg)
next
  case False
  with assms have y: "1 < 1 / a" by simp
  let ?m = "\<lceil>1 / a\<rceil> - 1"
  have m: "0 < ?m" using y by linarith
  from bits_bounds [OF m] have "?m < 2 ^ nat (bits ?m)" by simp
  then have "\<lceil>1 / a\<rceil> \<le> 2 ^ nat (bits ?m)" by simp
  then have "of_int \<lceil>1 / a\<rceil> \<le> (2::real) ^ nat (bits ?m)"
    by (metis of_int_le_iff of_int_numeral of_int_power)
  moreover have "1 / a \<le> of_int \<lceil>1 / a\<rceil>" by simp
  ultimately have "1 / a \<le> 2 ^ nat (bits ?m)" by linarith
  then have "1 / 2 ^ nat (bits ?m) \<le> a"
    using assms by (simp add: field_simps)
  moreover have "(2::real) powi (- bits ?m) = 1 / 2 ^ nat (bits ?m)"
    by (rule powi_neg [OF bits_nonneg])
  ultimately show ?thesis
    using False by (simp add: ilog2_def)
qed

lemma ilog2_upper: assumes "0 < a" shows "a < 2 powi (ilog2 a + 1)"
proof (cases "1 \<le> a")
  case True
  then have n: "0 < \<lfloor>a\<rfloor>" by linarith
  from bits_bounds [OF n] have "\<lfloor>a\<rfloor> + 1 \<le> 2 ^ nat (bits \<lfloor>a\<rfloor>)" by simp
  then have "of_int (\<lfloor>a\<rfloor> + 1) \<le> (2::real) ^ nat (bits \<lfloor>a\<rfloor>)"
    by (metis of_int_le_iff of_int_numeral of_int_power)
  moreover have "a < of_int (\<lfloor>a\<rfloor> + 1)" by linarith
  ultimately have "a < 2 ^ nat (bits \<lfloor>a\<rfloor>)" by linarith
  moreover have "(2::real) powi (bits \<lfloor>a\<rfloor>) = 2 ^ nat (bits \<lfloor>a\<rfloor>)"
    by (rule powi_nonneg [OF bits_nonneg])
  ultimately show ?thesis
    using True by (simp add: ilog2_def)
next
  case False
  with assms have y: "1 < 1 / a" by simp
  let ?m = "\<lceil>1 / a\<rceil> - 1"
  have m: "0 < ?m" using y by linarith
  have b1: "1 \<le> bits ?m"
    using m by (subst bits.simps) (simp add: bits_nonneg)
  from bits_bounds [OF m] have "2 ^ nat (bits ?m - 1) \<le> ?m" by simp
  then have "(2::real) ^ nat (bits ?m - 1) \<le> of_int ?m"
    by (metis of_int_le_iff of_int_numeral of_int_power)
  moreover have "of_int ?m < 1 / a" by linarith
  ultimately have "(2::real) ^ nat (bits ?m - 1) < 1 / a" by linarith
  then have lt: "a < 1 / 2 ^ nat (bits ?m - 1)"
    using assms by (simp add: field_simps)
  have e: "ilog2 a + 1 = - (bits ?m - 1)"
    using False by (simp add: ilog2_def)
  have "0 \<le> bits ?m - 1" using b1 by simp
  then have "(2::real) powi (- (bits ?m - 1)) = 1 / 2 ^ nat (bits ?m - 1)"
    by (rule powi_neg)
  with lt show ?thesis unfolding e by simp
qed

lemma ilog2_eqI:
  assumes "2 powi k \<le> a" and "a < 2 powi (k + 1)"
  shows "ilog2 a = k"
proof -
  have pos: "0 < a"
    using assms(1) by (meson less_le_trans zero_less_numeral zero_less_power_int)
  from ilog2_lower [OF pos] assms(2) have "(2::real) powi (ilog2 a) < 2 powi (k + 1)" by linarith
  then have "ilog2 a < k + 1" by (rule powi_less_imp)
  moreover from assms(1) ilog2_upper [OF pos] have "(2::real) powi k < 2 powi (ilog2 a + 1)"
    by linarith
  then have "k < ilog2 a + 1" by (rule powi_less_imp)
  ultimately show ?thesis by simp
qed

lemma round_even_le:
  assumes "r \<le> of_int N" shows "round_even r \<le> N"
proof -
  have f: "\<lfloor>r\<rfloor> \<le> N" using assms by (simp add: floor_le_iff)
  show ?thesis
  proof (cases "\<lfloor>r\<rfloor> = N")
    case True
    then have "r - of_int \<lfloor>r\<rfloor> \<le> 0" using assms by simp
    then show ?thesis using True by (simp add: round_even_def Let_def)
  next
    case False
    with f have "\<lfloor>r\<rfloor> + 1 \<le> N" by simp
    then show ?thesis by (simp add: round_even_def Let_def)
  qed
qed

lemma round_even_nonneg:
  assumes "0 \<le> r" shows "0 \<le> round_even r"
proof -
  have "0 \<le> \<lfloor>r\<rfloor>" using assms by simp
  then show ?thesis by (simp add: round_even_def Let_def)
qed


lemma to_double_pos:
  assumes "2 powi k \<le> x" and "x < 2 powi (k + 1)"
    and "round_even (x / 2 powi (max k (- 1022) - 52)) = n"
    and "0 < n" and "of_int n * 2 powi (max k (- 1022) - 52) < (2::real) powi 1024"
  shows "to_double x = Num (of_int n * 2 powi (max k (- 1022) - 52))"
proof -
  have pos: "0 < x"
    using assms(1) by (meson less_le_trans zero_less_numeral zero_less_power_int)
  have k: "ilog2 x = k"
    using assms(1,2) by (rule ilog2_eqI)
  show ?thesis
    using pos assms(3,4,5) by (simp add: to_double_def k Let_def)
qed

lemma to_double_overflow:
  assumes "2 powi k \<le> x" and "x < 2 powi (k + 1)"
    and "round_even (x / 2 powi (max k (- 1022) - 52)) = n"
    and "(2::real) powi 1024 \<le> of_int n * 2 powi (max k (- 1022) - 52)"
  shows "to_double x = PosInf"
proof -
  have pos: "0 < x"
    using assms(1) by (meson less_le_trans zero_less_numeral zero_less_power_int)
  have k: "ilog2 x = k"
    using assms(1,2) by (rule ilog2_eqI)
  show ?thesis
    using pos assms(3,4) by (simp add: to_double_def k Let_def)
qed

lemma to_double_bound:
  assumes "0 < x" and "x \<le> of_int b" and "b < 2 ^ 53"
  shows "\<exists>y. to_double x = Num y \<and> 0 \<le> y \<and> y \<le> of_int b"
proof -
  define e where "e = max (ilog2 x) (- 1022)"
  define d where "d = nat (52 - e)"
  define n where "n = round_even (x / 2 powi (e - 52))"
  have "(2::real) powi (ilog2 x) \<le> x" by (rule ilog2_lower [OF assms(1)])
  also have "\<dots> \<le> of_int b" by (rule assms(2))
  also have "\<dots> < 2 ^ 53" using assms(3) by (metis of_int_less_iff of_int_numeral of_int_power)
  finally have "(2::real) powi (ilog2 x) < 2 powi 53" by simp
  then have "ilog2 x < 53" by (rule powi_less_imp)
  then have e52: "e \<le> 52" by (simp add: e_def)
  then have u: "(2::real) powi (e - 52) = 1 / 2 ^ d"
    using powi_neg [of "52 - e"] by (simp add: d_def)
  have "x / 2 powi (e - 52) = x * 2 ^ d" by (simp add: u)
  also have "\<dots> \<le> of_int b * 2 ^ d" using assms(2) by simp
  also have "\<dots> = of_int (b * 2 ^ d)" by simp
  finally have "n \<le> b * 2 ^ d" unfolding n_def by (rule round_even_le)
  then have "of_int n \<le> (of_int (b * 2 ^ d) :: real)" by (simp only: of_int_le_iff)
  then have "of_int n \<le> of_int b * (2::real) ^ d" by simp
  then have v: "of_int n * 2 powi (e - 52) \<le> (of_int b :: real)"
    by (simp add: u field_simps)
  have "0 \<le> x / 2 powi (e - 52)" using assms(1) by (simp add: u)
  then have n0: "0 \<le> n" unfolding n_def by (rule round_even_nonneg)
  then have v0: "(0::real) \<le> of_int n * 2 powi (e - 52)" by (simp add: u)
  have "(of_int b :: real) < 2 ^ 53" using assms(3)
    by (metis of_int_less_iff of_int_numeral of_int_power)
  also have "\<dots> < 2 powi 1024" by simp
  finally have nov: "\<not> (2::real) powi 1024 \<le> of_int n * 2 powi (e - 52)" using v by simp
  have b0: "(0::real) \<le> of_int b" using assms(1,2) by linarith
  have "to_double x = (if n = 0 then Num 0 else Num (of_int n * 2 powi (e - 52)))"
    using assms(1) nov by (simp add: to_double_def Let_def e_def [symmetric] n_def [symmetric])
  with v v0 b0 show ?thesis by auto
qed

lemma js_div_in_unit:
  assumes "0 \<le> c" and "c \<le> t" and "0 < t"
  shows "\<exists>q. js_div (Num c) (Num t) = Num q \<and> 0 \<le> q \<and> q \<le> 1"
proof (cases "c = 0")
  case True
  with assms show ?thesis by (simp add: js_div_def signed_zero_def)
next
  case False
  with assms have "0 < c / t" "c / t \<le> of_int 1" by simp_all
  from to_double_bound [OF this] obtain y where "to_double (c / t) = Num y" "0 \<le> y" "y \<le> 1"
    by auto
  with False assms show ?thesis by (simp add: js_div_def)
qed

lemma js_mul_100:
  assumes "0 \<le> q" and "q \<le> 1"
  shows "\<exists>p. js_mul (Num q) (Num 100) = Num p \<and> 0 \<le> p \<and> p \<le> 100"
proof (cases "q = 0")
  case True
  then show ?thesis by (simp add: js_mul_def signed_zero_def)
next
  case False
  with assms have "0 < q * 100" "q * 100 \<le> of_int 100" by simp_all
  from to_double_bound [OF this] obtain y where "to_double (q * 100) = Num y" "0 \<le> y" "y \<le> 100"
    by auto
  with False show ?thesis by (simp add: js_mul_def)
qed

lemma pct_in_contract:
  assumes "0 \<le> c" and "c \<le> t" and "0 < t"
  shows "\<exists>p. progress_pct (Num c) (Num t) = Num p \<and> 0 \<le> p \<and> p \<le> 100"
proof -
  from js_div_in_unit [OF assms] obtain q where q: "js_div (Num c) (Num t) = Num q"
    "0 \<le> q" "q \<le> 1" by blast
  from js_mul_100 [OF q(2,3)] show ?thesis by (simp add: progress_pct_def q(1))
qed

text \<open>
  What some callbacks store: \<^verbatim>\<open>(1, 100)\<close> stores 1, \<^verbatim>\<open>(7, 100)\<close> stores
  7.000000000000001, \<^verbatim>\<open>(29, 200)\<close> stores 14.499999999999998, and \<^verbatim>\<open>(2 ** 1023, 1)\<close>
  stores \<^verbatim>\<open>Infinity\<close>, as the machine does; \<^verbatim>\<open>(Infinity, Infinity)\<close> and \<^verbatim>\<open>(0, 0)\<close> store
  NaN, and \<^verbatim>\<open>(1, -0)\<close> stores \<^verbatim>\<open>-Infinity\<close>.
\<close>

lemma div_1_100: "js_div (Num 1) (Num 100) = Num (5764607523034235 / 2 ^ 59)"
  using to_double_pos [of "-7" "1 / 100" 5764607523034235]
  by (simp add: js_div_def round_even_def Let_def)

lemma mul_1_100: "js_mul (Num (5764607523034235 / 2 ^ 59)) (Num 100) = Num 1"
  using to_double_pos [of 0 "5764607523034235 / 2 ^ 59 * 100" 4503599627370496]
  by (simp add: js_mul_def round_even_def Let_def)

lemma pct_1_100: "progress_pct (Num 1) (Num 100) = Num 1"
  by (simp only: progress_pct_def div_1_100 mul_1_100)

lemma div_7_100: "js_div (Num 7) (Num 100) = Num (5044031582654956 / 2 ^ 56)"
  using to_double_pos [of "-4" "7 / 100" 5044031582654956]
  by (simp add: js_div_def round_even_def Let_def)

lemma mul_7_100:
  "js_mul (Num (5044031582654956 / 2 ^ 56)) (Num 100) = Num (7881299347898369 / 2 ^ 50)"
  using to_double_pos [of 2 "5044031582654956 / 2 ^ 56 * 100" 7881299347898369]
  by (simp add: js_mul_def round_even_def Let_def)

lemma pct_7_100: "progress_pct (Num 7) (Num 100) = Num (7881299347898369 / 2 ^ 50)"
  by (simp only: progress_pct_def div_7_100 mul_7_100)

lemma div_29_200: "js_div (Num 29) (Num 200) = Num (5224175567749775 / 2 ^ 55)"
  using to_double_pos [of "-3" "29 / 200" 5224175567749775]
  by (simp add: js_div_def round_even_def Let_def)

lemma mul_29_200:
  "js_mul (Num (5224175567749775 / 2 ^ 55)) (Num 100) = Num (8162774324609023 / 2 ^ 49)"
  using to_double_pos [of 3 "5224175567749775 / 2 ^ 55 * 100" 8162774324609023]
  by (simp add: js_mul_def round_even_def Let_def)

lemma pct_29_200: "progress_pct (Num 29) (Num 200) = Num (8162774324609023 / 2 ^ 49)"
  by (simp only: progress_pct_def div_29_200 mul_29_200)

lemma div_huge: "js_div (Num (2 ^ 1023)) (Num 1) = Num (2 ^ 1023)"
  using to_double_pos [of 1023 "2 ^ 1023" "2 ^ 52"]
  by (simp add: js_div_def round_even_def Let_def)

lemma mul_huge: "js_mul (Num (2 ^ 1023)) (Num 100) = PosInf"
  using to_double_overflow [of 1029 "2 ^ 1023 * 100" "2 ^ 52 * 100 div 64"]
  by (simp add: js_mul_def round_even_def Let_def)

lemma pct_overflow: "progress_pct (Num (2 ^ 1023)) (Num 1) = PosInf"
  by (simp only: progress_pct_def div_huge mul_huge)

lemma pct_special:
  "progress_pct PosInf PosInf = NaN"
  "progress_pct (Num 0) (Num 0) = NaN"
  "progress_pct (Num 1) NegZero = NegInf"
  by (simp_all add: progress_pct_def js_div_def js_mul_def signed_inf_def)

section \<open>Evaluating the handlers\<close>

lemma allowed_set:
  "set ALLOWED_FILE_TYPES = {''image/png'', ''image/jpeg'', ''image/webp''}"
  by (simp add: ALLOWED_FILE_TYPES_def)

lemma parse_cases:
  "imageFileSchema_parse t n =
     (if t \<in> {''image/png'', ''image/jpeg'', ''image/webp''} \<and> n \<le> 5242880
      then Inr (t, n) else Inl ZodError)"
  unfolding imageFileSchema_parse_def allowed_set by simp

lemma validate_rejected:
  assumes "\<not> (file_type f \<in> {''image/png'', ''image/jpeg'', ''image/webp''}
              \<and> file_size f \<le> 5242880)"
  shows "validateAndProcessFile f s =
     s\<lparr> error := Some ''Please upload a valid PNG, JPG, or WEBP image (max 5MB).'' \<rparr>"
proof -
  have "imageFileSchema_parse (file_type f) (file_size f) = Inl ZodError"
    using assms by (auto simp: parse_cases)
  then show ?thesis by (simp add: validateAndProcessFile_def)
qed

lemma validate_accepted:
  assumes "file_type f \<in> {''image/png'', ''image/jpeg'', ''image/webp''}"
    and "file_size f \<le> 5242880"
  shows "validateAndProcessFile f s =
     s\<lparr> fileName := Some (file_name f), fileSize := Some (file_size f), error := None,
        originalLoaded := False, processedLoaded := False, processedImage := None,
        readers := readers s @ [(nextReader s, f)], nextReader := Suc (nextReader s) \<rparr>"
proof -
  have "imageFileSchema_parse (file_type f) (file_size f) = Inr (file_type f, file_size f)"
    using assms by (auto simp: parse_cases)
  then show ?thesis by (simp add: validateAndProcessFile_def)
qed

lemmas handler_defs =
  handleFileChange_def handleDrop_def handleDragOver_def handleDragLeave_def
  validateAndProcessFile_def parse_cases reader_onload_def reader_onerror_def
  processImage_start_def processImage_resume_def processImage_finally_def
  abort_current_def release_processed_def revokeObjectURL_def onProgress_def
  clearImage_def unmount_def handleDownload_def pending_def remove_def

lemma shown_eq:
  "shown = \<lparr> image_src = Some ''data:photo'', processedImage = Some 0,
      fileName = Some ''photo.jpg'', fileSize = Some 2097152,
      isDragging = False, error = None, isProcessing = False, progress = Num 0,
      useCheckerboard = True, originalLoaded = False, processedLoaded = False,
      abortControllerRef = None, processedUrlRef = Some 0,
      controllers = [False], objectUrls = [(0, ''cutout'')], revoked = [], nextUrl = 1,
      readers = [], nextReader = 1, jobs = [], nextJob = 1,
      console = [], downloads = [] \<rparr>"
  by (simp add: shown_def photo_jpg_def init_def handler_defs)

lemma reading_eq:
  "reading = init \<lparr> fileName := Some ''photo.jpg'', fileSize := Some 2097152,
      readers := [(0, photo_jpg)], nextReader := 1 \<rparr>"
  by (simp add: reading_def photo_jpg_def init_def handler_defs)

lemma running_eq:
  "running = \<lparr> image_src = Some ''data:photo'', processedImage = None,
      fileName = Some ''photo.jpg'', fileSize = Some 2097152,
      isDragging = False, error = None, isProcessing = True, progress = Num 0,
      useCheckerboard = True, originalLoaded = False, processedLoaded = False,
      abortControllerRef = Some 0, processedUrlRef = None,
      controllers = [False], objectUrls = [], revoked = [], nextUrl = 0,
      readers = [], nextReader = 1, jobs = [(0, ''data:photo'')], nextJob = 1,
      console = [], downloads = [] \<rparr>"
  by (simp add: running_def photo_jpg_def init_def handler_defs)

lemma resume_resolved:
  "processImage_resume (Resolved b) s =
     (release_processed s)\<lparr> objectUrls := objectUrls (release_processed s) @ [(nextUrl s, b)],
        nextUrl := Suc (nextUrl s), processedUrlRef := Some (nextUrl s),
        processedImage := Some (nextUrl s),
        isProcessing := False, progress := Num 0, abortControllerRef := None \<rparr>"
  by (simp add: processImage_resume_def processImage_finally_def release_processed_def
        revokeObjectURL_def Let_def split: option.splits)

lemma resume_abort:
  "is_abort err \<Longrightarrow> processImage_resume (Rejected err) s =
     s\<lparr> isProcessing := False, progress := Num 0, abortControllerRef := None \<rparr>"
  by (simp add: processImage_resume_def processImage_finally_def)

lemma resume_failure:
  "\<not> is_abort err \<Longrightarrow> processImage_resume (Rejected err) s =
     s\<lparr> console := console s @ [err], error := Some (failure_message err),
        isProcessing := False, progress := Num 0, abortControllerRef := None \<rparr>"
  by (simp add: processImage_resume_def processImage_finally_def)

lemma butlast_self: "(butlast xs = xs) = (xs = [])"
proof
  assume "butlast xs = xs"
  then have "length (butlast xs) = length xs" by simp
  then have "length xs - 1 = length xs" by (simp only: length_butlast)
  then show "xs = []" by (cases xs) simp_all
qed simp

lemma release_fields:
  "nextUrl (release_processed s) = nextUrl s"
  "jobs (release_processed s) = jobs s"
  "console (release_processed s) = console s"
  "error (release_processed s) = error s"
  by (simp_all add: release_processed_def revokeObjectURL_def split: option.splits)

lemma step_starts_job_only_on_load:
  "nextJob (step e s) = nextJob s \<or> (\<exists>r x. e = ReaderLoad r x \<and> pending r (readers s))"
  by (cases e) (auto simp: handler_defs Let_def split: list.splits option.splits outcome.splits)



lemma a_then_b_eq:
  "run a_then_b init = \<lparr> image_src = Some ''data:b'', processedImage = Some 1,
      fileName = Some ''b.png'', fileSize = Some 2000,
      isDragging = False, error = None, isProcessing = False, progress = Num 0,
      useCheckerboard = True, originalLoaded = False, processedLoaded = False,
      abortControllerRef = None, processedUrlRef = Some 1,
      controllers = [False, False], objectUrls = [(1, ''cutout-b'')], revoked = [0],
      nextUrl = 2, readers = [], nextReader = 2, jobs = [], nextJob = 2,
      console = [], downloads = [] \<rparr>"
  by (simp add: a_then_b_def a_png_def b_png_def init_def handler_defs)

lemma step_job_resolved:
  assumes "pending j (jobs s)"
  shows "step (JobDone j (Resolved b)) s =
     (release_processed s)\<lparr> jobs := remove j (jobs s),
        objectUrls := objectUrls (release_processed s) @ [(nextUrl s, b)],
        nextUrl := Suc (nextUrl s), processedUrlRef := Some (nextUrl s),
        processedImage := Some (nextUrl s),
        isProcessing := False, progress := Num 0, abortControllerRef := None \<rparr>"
  using assms
  by (simp add: resume_resolved release_processed_def revokeObjectURL_def split: option.splits)

lemma step_job_abort:
  assumes "pending j (jobs s)"
  shows "step (JobDone j (Rejected (Error ''AbortError'' m))) s =
     s\<lparr> jobs := remove j (jobs s), isProcessing := False, progress := Num 0,
        abortControllerRef := None \<rparr>"
  using assms by (simp add: resume_abort)

lemma step_job_error:
  assumes "pending j (jobs s)" and "n \<noteq> ''AbortError''"
  shows "step (JobDone j (Rejected (Error n m))) s =
     s\<lparr> jobs := remove j (jobs s), console := console s @ [Error n m],
        error := Some (''Failed to remove background: '' @ m),
        isProcessing := False, progress := Num 0, abortControllerRef := None \<rparr>"
  using assms by (simp add: resume_failure)

lemma step_job_nonerror:
  assumes "pending j (jobs s)"
  shows "step (JobDone j (Rejected NonError)) s =
     s\<lparr> jobs := remove j (jobs s), console := console s @ [NonError],
        error := Some ''Failed to remove background. Please try again.'',
        isProcessing := False, progress := Num 0, abortControllerRef := None \<rparr>"
  using assms by (simp add: resume_failure)

lemma outcome_cases:
  obtains (resolved) b where "out = Resolved b"
  | (abort) m where "out = Rejected (Error ''AbortError'' m)"
  | (error) n m where "out = Rejected (Error n m)" and "n \<noteq> ''AbortError''"
  | (nonerror) "out = Rejected NonError"
proof (cases out)
  case (Resolved b)
  then show ?thesis by (rule resolved)
next
  case (Rejected err)
  show ?thesis
  proof (cases err)
    case (Error n m)
    show ?thesis
    proof (cases "n = ''AbortError''")
      case True
      with Rejected Error show ?thesis using abort by simp
    next
      case False
      with Rejected Error show ?thesis using error by simp
    qed
  next
    case NonError
    with Rejected show ?thesis using nonerror by simp
  qed
qed


section \<open>The invariant of the object URLs\<close>

lemma live_ok_cong:
  assumes "objectUrls t = objectUrls s" and "revoked t = revoked s"
    and "nextUrl t = nextUrl s" and "processedUrlRef t = processedUrlRef s"
  shows "live_ok t = live_ok s"
  by (simp add: live_ok_def assms)

lemma live_ok_init: "live_ok init"
  by (simp add: live_ok_def init_def)

lemma release_none:
  "processedUrlRef s = None \<Longrightarrow> release_processed s = s"
  by (simp add: release_processed_def)

lemma release_some:
  "processedUrlRef s = Some u \<Longrightarrow> release_processed s =
     s\<lparr> objectUrls := filter (\<lambda>p. fst p \<noteq> u) (objectUrls s), revoked := revoked s @ [u],
        processedUrlRef := None \<rparr>"
  by (simp add: release_processed_def revokeObjectURL_def)

lemma live_ok_release:
  assumes "live_ok s"
  shows "live_ok (release_processed s) \<and> objectUrls (release_processed s) = []
    \<and> processedUrlRef (release_processed s) = None
    \<and> nextUrl (release_processed s) = nextUrl s"
proof (cases "processedUrlRef s")
  case None
  with assms show ?thesis by (simp add: release_none live_ok_def)
next
  case (Some u)
  from assms Some have m: "map fst (objectUrls s) = [u]" by (simp add: live_ok_def)
  then obtain b where o: "objectUrls s = [(u, b)]" by (cases "objectUrls s") auto
  from assms Some o show ?thesis
    by (simp add: release_some live_ok_def)
qed

lemma live_ok_resume:
  assumes "live_ok s"
  shows "live_ok (processImage_resume out s)"
proof (cases out)
  case (Resolved b)
  let ?r = "release_processed s"
  from live_ok_release [OF assms] have r: "live_ok ?r" "objectUrls ?r = []"
    "processedUrlRef ?r = None" "nextUrl ?r = nextUrl s" by simp_all
  from r(1) have d: "distinct (revoked ?r)" "list_all (\<lambda>u. u < nextUrl s) (revoked ?r)"
    by (simp_all add: live_ok_def r(4))
  from d(2) have "nextUrl s \<notin> set (revoked ?r)" by (auto simp: list_all_iff)
  moreover from d(2) have "list_all (\<lambda>u. u < Suc (nextUrl s)) (revoked ?r)"
    by (auto simp: list_all_iff)
  ultimately show ?thesis
    unfolding Resolved resume_resolved using d(1) r(2)
    by (simp add: live_ok_def)
next
  case (Rejected err)
  show ?thesis
  proof (cases "is_abort err")
    case True
    have "live_ok (processImage_resume (Rejected err) s) = live_ok s"
      by (rule live_ok_cong) (simp_all add: resume_abort [OF True])
    with assms show ?thesis unfolding Rejected by simp
  next
    case False
    have "live_ok (processImage_resume (Rejected err) s) = live_ok s"
      by (rule live_ok_cong) (simp_all add: resume_failure [OF False])
    with assms show ?thesis unfolding Rejected by simp
  qed
qed

lemma live_ok_validate: "live_ok (validateAndProcessFile f s) = live_ok s"
  by (rule live_ok_cong)
     (simp_all add: validateAndProcessFile_def split: sum.splits)

lemma live_ok_start: "live_ok (processImage_start x s) = live_ok s"
  by (rule live_ok_cong)
     (simp_all add: processImage_start_def abort_current_def Let_def split: option.splits)

lemma live_ok_clear:
  assumes "live_ok s" shows "live_ok (clearImage s)"
proof -
  have "live_ok (abort_current s) = live_ok s"
    by (rule live_ok_cong) (simp_all add: abort_current_def split: option.splits)
  with assms have "live_ok (release_processed (abort_current s))"
    using live_ok_release by blast
  moreover have "live_ok (clearImage s) = live_ok (release_processed (abort_current s))"
    by (rule live_ok_cong) (simp_all add: clearImage_def)
  ultimately show ?thesis by simp
qed

lemma live_ok_step:
  assumes "live_ok s" shows "live_ok (step e s)"
proof (cases e)
  case (FileChange fs)
  with assms show ?thesis
    by (simp add: handleFileChange_def live_ok_validate split: list.splits)
next
  case (Drop fs)
  have "live_ok (s\<lparr> isDragging := False \<rparr>) = live_ok s"
    by (rule live_ok_cong) simp_all
  with assms Drop show ?thesis
    by (simp add: handleDrop_def handleFileChange_def live_ok_validate split: list.splits)
next
  case DragOver
  have "live_ok (step e s) = live_ok s"
    unfolding DragOver by (rule live_ok_cong) (simp_all add: handleDragOver_def)
  with assms show ?thesis by simp
next
  case DragLeave
  have "live_ok (step e s) = live_ok s"
    unfolding DragLeave by (rule live_ok_cong) (simp_all add: handleDragLeave_def)
  with assms show ?thesis by simp
next
  case (ReaderLoad r x)
  have "live_ok (s\<lparr> readers := remove r (readers s), image_src := Some x \<rparr>) = live_ok s"
    by (rule live_ok_cong) simp_all
  with assms ReaderLoad show ?thesis
    by (simp add: reader_onload_def live_ok_start)
next
  case (ReaderError r)
  have "live_ok (step e s) = live_ok s"
    unfolding ReaderError by (rule live_ok_cong) (simp_all add: reader_onerror_def)
  with assms show ?thesis by simp
next
  case (Progress j k c t)
  have "live_ok (step e s) = live_ok s"
    unfolding Progress by (rule live_ok_cong) (simp_all add: onProgress_def)
  with assms show ?thesis by simp
next
  case (JobDone j out)
  have "live_ok (s\<lparr> jobs := remove j (jobs s) \<rparr>) = live_ok s"
    by (rule live_ok_cong) simp_all
  with assms JobDone show ?thesis
    by (simp add: live_ok_resume)
next
  case Clear
  with assms show ?thesis by (simp add: live_ok_clear)
next
  case Download
  have "live_ok (step e s) = live_ok s"
    unfolding Download
    by (rule live_ok_cong) (simp_all add: handleDownload_def split: option.splits)
  with assms show ?thesis by simp
next
  case ToggleCheckerboard
  have "live_ok (step e s) = live_ok s"
    unfolding ToggleCheckerboard by (rule live_ok_cong) simp_all
  with assms show ?thesis by simp
next
  case OriginalLoad
  have "live_ok (step e s) = live_ok s"
    unfolding OriginalLoad by (rule live_ok_cong) simp_all
  with assms show ?thesis by simp
next
  case ProcessedLoad
  have "live_ok (step e s) = live_ok s"
    unfolding ProcessedLoad by (rule live_ok_cong) simp_all
  with assms show ?thesis by simp
next
  case Unmount
  with assms show ?thesis using live_ok_release by (simp add: unmount_def)
qed

lemma live_ok_run: "live_ok s \<Longrightarrow> live_ok (run es s)"
  by (induction es arbitrary: s) (simp_all add: live_ok_step)

lemma live_ok_reachable: "live_ok (run es init)"
  by (rule live_ok_run [OF live_ok_init])

lemma release_twice: "release_processed (release_processed s) = release_processed s"
  by (simp add: release_processed_def revokeObjectURL_def split: option.splits)

lemma clear_twice_revoked: "revoked (clearImage (clearImage s)) = revoked (clearImage s)"
  by (simp add: clearImage_def release_processed_def revokeObjectURL_def abort_current_def
        split: option.splits)

section \<open>The validator and rejected files\<close>



text \<open>
  Claim C4. A file whose type is not one of the three, or whose size is above 5 MiB, gets the
  type-and-size message and starts nothing: no reader and no call of the library is added, no
  controller is created, and the progress value and the running flag are what they were (so
  a progress of 0 stays 0 and an idle pipeline stays idle). The same holds when the file
  arrives through the file input or through a drop.
\<close>

theorem invalid_file_starts_nothing:
  assumes "\<not> (file_type f \<in> {''image/png'', ''image/jpeg'', ''image/webp''}
              \<and> file_size f \<le> 5242880)"
  shows "error (validateAndProcessFile f s)
           = Some ''Please upload a valid PNG, JPG, or WEBP image (max 5MB).''
    \<and> readers (validateAndProcessFile f s) = readers s
    \<and> nextReader (validateAndProcessFile f s) = nextReader s
    \<and> jobs (validateAndProcessFile f s) = jobs s
    \<and> nextJob (validateAndProcessFile f s) = nextJob s
    \<and> controllers (validateAndProcessFile f s) = controllers s
    \<and> progress (validateAndProcessFile f s) = progress s
    \<and> isProcessing (validateAndProcessFile f s) = isProcessing s
    \<and> step (FileChange (f # fs)) s = validateAndProcessFile f s
    \<and> step (Drop (f # fs)) s = validateAndProcessFile f (s\<lparr> isDragging := False \<rparr>)
    \<and> error (step (Drop (f # fs)) s)
          = Some ''Please upload a valid PNG, JPG, or WEBP image (max 5MB).''
    \<and> readers (step (Drop (f # fs)) s) = readers s
    \<and> jobs (step (Drop (f # fs)) s) = jobs s
    \<and> progress (step (Drop (f # fs)) s) = progress s
    \<and> isProcessing (step (Drop (f # fs)) s) = isProcessing s"
proof -
  have d: "step (Drop (f # fs)) s = validateAndProcessFile f (s\<lparr> isDragging := False \<rparr>)"
    by (simp add: handleDrop_def handleFileChange_def)
  show ?thesis
    unfolding d by (simp add: validate_rejected [OF assms] handleFileChange_def)
qed

theorem invalid_file_starts_nothing_witness:
  "\<not> (file_type huge_png \<in> {''image/png'', ''image/jpeg'', ''image/webp''}
       \<and> file_size huge_png \<le> 5242880)
   \<and> error (validateAndProcessFile huge_png init)
        = Some ''Please upload a valid PNG, JPG, or WEBP image (max 5MB).''
   \<and> readers (validateAndProcessFile huge_png init) = []
   \<and> jobs (validateAndProcessFile huge_png init) = []
   \<and> progress (validateAndProcessFile huge_png init) = Num 0
   \<and> \<not> isProcessing (validateAndProcessFile huge_png init)"
proof -
  have h: "\<not> (file_type huge_png \<in> {''image/png'', ''image/jpeg'', ''image/webp''}
       \<and> file_size huge_png \<le> 5242880)"
    by (simp add: huge_png_def)
  show ?thesis
    using h invalid_file_starts_nothing [OF h, of init] by (simp add: init_def)
qed

text \<open>
  Claim C10. When a submitted file fails validation, the state after the submission is the
  state before it with the error message replaced: the original image, the processed image,
  the artifact handle, the file name, the file size and every other field keep their values.
\<close>

theorem invalid_file_changes_only_error:
  assumes "\<not> (file_type f \<in> {''image/png'', ''image/jpeg'', ''image/webp''}
              \<and> file_size f \<le> 5242880)"
  shows "validateAndProcessFile f s
           = s\<lparr> error := Some ''Please upload a valid PNG, JPG, or WEBP image (max 5MB).'' \<rparr>"
  by (rule validate_rejected [OF assms])

theorem invalid_file_changes_only_error_witness:
  "\<not> (file_type huge_png \<in> {''image/png'', ''image/jpeg'', ''image/webp''}
       \<and> file_size huge_png \<le> 5242880)
   \<and> validateAndProcessFile huge_png shown =
     \<lparr> image_src = Some ''data:photo'', processedImage = Some 0,
      fileName = Some ''photo.jpg'', fileSize = Some 2097152,
      isDragging = False,
      error = Some ''Please upload a valid PNG, JPG, or WEBP image (max 5MB).'',
      isProcessing = False, progress = Num 0,
      useCheckerboard = True, originalLoaded = False, processedLoaded = False,
      abortControllerRef = None, processedUrlRef = Some 0,
      controllers = [False], objectUrls = [(0, ''cutout'')], revoked = [], nextUrl = 1,
      readers = [], nextReader = 1, jobs = [], nextJob = 1,
      console = [], downloads = [] \<rparr>"
proof -
  have h: "\<not> (file_type huge_png \<in> {''image/png'', ''image/jpeg'', ''image/webp''}
       \<and> file_size huge_png \<le> 5242880)"
    by (simp add: huge_png_def)
  show ?thesis
    using h invalid_file_changes_only_error [OF h, of shown] by (simp add: shown_eq)
qed

section \<open>Clearing\<close>

text \<open>
  Claim C8. \<^verbatim>\<open>clearImage\<close> on a state that holds a live artifact revokes its object URL
  (once) and forgets it, and resets the pipeline: progress 0, not running, no error, and no
  image, processed image, file name or file size; no progress bar is shown.
\<close>

theorem clear_resets:
  assumes "processedUrlRef s = Some u" and "u \<in> set (map fst (objectUrls s))"
  shows "u \<notin> set (map fst (objectUrls (clearImage s)))
    \<and> revoked (clearImage s) = revoked s @ [u]
    \<and> processedUrlRef (clearImage s) = None
    \<and> progress (clearImage s) = Num 0
    \<and> \<not> isProcessing (clearImage s)
    \<and> error (clearImage s) = None
    \<and> image_src (clearImage s) = None
    \<and> processedImage (clearImage s) = None
    \<and> fileName (clearImage s) = None
    \<and> fileSize (clearImage s) = None
    \<and> bar_width (clearImage s) = None"
  using assms
  by (auto simp: clearImage_def release_processed_def revokeObjectURL_def abort_current_def
        bar_width_def split: option.splits)

theorem clear_resets_witness:
  "processedUrlRef shown = Some 0 \<and> 0 \<in> set (map fst (objectUrls shown))
   \<and> objectUrls (clearImage shown) = []
   \<and> revoked (clearImage shown) = [0]
   \<and> progress (clearImage shown) = Num 0
   \<and> \<not> isProcessing (clearImage shown)
   \<and> error (clearImage shown) = None
   \<and> fileName (clearImage shown) = None"
proof -
  have h1: "processedUrlRef shown = Some 0" by (simp add: shown_eq)
  have h2: "0 \<in> set (map fst (objectUrls shown))" by (simp add: shown_eq)
  have "objectUrls (clearImage shown) = []"
    by (simp add: shown_eq clearImage_def release_processed_def revokeObjectURL_def
          abort_current_def)
  then show ?thesis
    using h1 h2 clear_resets [OF h1 h2] by (simp add: shown_eq)
qed

section \<open>Reading the file\<close>

text \<open>
  Claim C9. Submitting an accepted file starts a reader and nothing else: no call of the
  library is made and the running flag is untouched. When the reader fails, the error is the
  read-failure message, which is neither of the two validation messages; no call of the
  library is made; and the reader is spent, so a load event for it can no longer start one.
  A call is made when the reader loads, and no other event makes one.
\<close>

theorem read_failure_is_terminal:
  assumes "file_type f \<in> {''image/png'', ''image/jpeg'', ''image/webp''}"
    and "file_size f \<le> 5242880"
    and "pending r (readers t)"
  shows "jobs (validateAndProcessFile f s) = jobs s
    \<and> nextJob (validateAndProcessFile f s) = nextJob s
    \<and> isProcessing (validateAndProcessFile f s) = isProcessing s
    \<and> readers (validateAndProcessFile f s) = readers s @ [(nextReader s, f)]
    \<and> error (step (ReaderError r) t) = Some ''Failed to read the file. Please try again.''
    \<and> ''Failed to read the file. Please try again.'' \<noteq> catch_message ZodError
    \<and> ''Failed to read the file. Please try again.'' \<noteq> catch_message OtherError
    \<and> jobs (step (ReaderError r) t) = jobs t
    \<and> nextJob (step (ReaderError r) t) = nextJob t
    \<and> isProcessing (step (ReaderError r) t) = isProcessing t
    \<and> \<not> pending r (readers (step (ReaderError r) t))
    \<and> step (ReaderLoad r x) (step (ReaderError r) t) = step (ReaderError r) t
    \<and> jobs (step (ReaderLoad r x) t) = jobs t @ [(nextJob t, x)]
    \<and> (nextJob (step e t) = nextJob t
        \<or> (\<exists>r' x'. e = ReaderLoad r' x' \<and> pending r' (readers t)))"
proof -
  have a: "step (ReaderError r) t =
      t\<lparr> readers := remove r (readers t),
         error := Some ''Failed to read the file. Please try again.'' \<rparr>"
    using assms(3) by (simp add: reader_onerror_def)
  have b: "\<not> pending r (remove r (readers t))"
    by (auto simp: pending_def remove_def)
  have c: "jobs (step (ReaderLoad r x) t) = jobs t @ [(nextJob t, x)]"
    using assms(3)
    by (simp add: reader_onload_def processImage_start_def abort_current_def Let_def
          split: option.splits)
  show ?thesis
    unfolding a validate_accepted [OF assms(1,2)]
    using b c step_starts_job_only_on_load [of e t] by simp
qed

theorem read_failure_is_terminal_witness:
  "file_type photo_jpg \<in> {''image/png'', ''image/jpeg'', ''image/webp''}
   \<and> file_size photo_jpg \<le> 5242880
   \<and> pending 0 (readers reading)
   \<and> jobs (validateAndProcessFile photo_jpg init) = []
   \<and> \<not> isProcessing (validateAndProcessFile photo_jpg init)
   \<and> error (step (ReaderError 0) reading) = Some ''Failed to read the file. Please try again.''
   \<and> jobs (step (ReaderError 0) reading) = []
   \<and> \<not> isProcessing (step (ReaderError 0) reading)
   \<and> step (ReaderLoad 0 ''data:photo'') (step (ReaderError 0) reading)
       = step (ReaderError 0) reading
   \<and> jobs (step (ReaderLoad 0 ''data:photo'') reading) = [(0, ''data:photo'')]"
proof -
  have h1: "file_type photo_jpg \<in> {''image/png'', ''image/jpeg'', ''image/webp''}"
    by (simp add: photo_jpg_def)
  have h2: "file_size photo_jpg \<le> 5242880" by (simp add: photo_jpg_def)
  have h3: "pending 0 (readers reading)" by (simp add: reading_eq pending_def)
  show ?thesis
    using h1 h2 h3 read_failure_is_terminal [OF h1 h2 h3, of init "''data:photo''" Clear]
    by (simp add: reading_eq init_def)
qed

section \<open>Downloading\<close>




section \<open>The end of a call of the library\<close>

text \<open>
  Claim C5. When a pending call of the library settles, exactly one of three things is seen.
  It resolved with a blob: an artifact is produced, the new object URL holds the blob and is
  the processed image, and the error is untouched. It rejected with an \<^verbatim>\<open>Error\<close> named
  \<^verbatim>\<open>AbortError\<close>: nothing is applied, the state changes only by the call being gone and the
  \<^verbatim>\<open>finally\<close> block. It rejected with anything else: the value is logged and the error is
  \<^verbatim>\<open>Failed to remove background: \<close> followed by the message of the \<^verbatim>\<open>Error\<close>, or
  \<^verbatim>\<open>Failed to remove background. Please try again.\<close> for a value that is no \<^verbatim>\<open>Error\<close>. In
  each case the progress is 0 and the running flag is off afterwards, so no progress bar is
  shown. (A call that never settles has no such moment; the code sets no timeout.)
\<close>

theorem job_settles_one_way:
  assumes "pending j (jobs s)"
  shows "length (filter id
            [artifact_produced s (step (JobDone j out) s),
             failure_surfaced s (step (JobDone j out) s),
             silently_cancelled s (step (JobDone j out) s)]) = 1
    \<and> artifact_produced s (step (JobDone j out) s) = (\<exists>b. out = Resolved b)
    \<and> failure_surfaced s (step (JobDone j out) s)
        = (out = Rejected NonError \<or> (\<exists>n m. out = Rejected (Error n m) \<and> n \<noteq> ''AbortError''))
    \<and> silently_cancelled s (step (JobDone j out) s)
        = (\<exists>m. out = Rejected (Error ''AbortError'' m))
    \<and> \<not> isProcessing (step (JobDone j out) s)
    \<and> progress (step (JobDone j out) s) = Num 0
    \<and> bar_width (step (JobDone j out) s) = None
    \<and> \<not> pending j (jobs (step (JobDone j out) s))
    \<and> step (JobDone j (Rejected (Error ''AbortError'' m))) s
        = s\<lparr> jobs := remove j (jobs s), isProcessing := False, progress := Num 0,
             abortControllerRef := None \<rparr>
    \<and> (n \<noteq> ''AbortError'' \<longrightarrow>
        step (JobDone j (Rejected (Error n m))) s
          = s\<lparr> jobs := remove j (jobs s), console := console s @ [Error n m],
               error := Some (''Failed to remove background: '' @ m),
               isProcessing := False, progress := Num 0, abortControllerRef := None \<rparr>)
    \<and> step (JobDone j (Rejected NonError)) s
        = s\<lparr> jobs := remove j (jobs s), console := console s @ [NonError],
             error := Some ''Failed to remove background. Please try again.'',
             isProcessing := False, progress := Num 0, abortControllerRef := None \<rparr>
    \<and> processedImage (step (JobDone j (Resolved b)) s) = Some (nextUrl s)
    \<and> (nextUrl s, b) \<in> set (objectUrls (step (JobDone j (Resolved b)) s))
    \<and> error (step (JobDone j (Resolved b)) s) = error s"
proof -
  have np: "\<not> pending j (remove j (jobs s))"
    by (auto simp: pending_def remove_def)
  have main: "length (filter id
            [artifact_produced s (step (JobDone j out) s),
             failure_surfaced s (step (JobDone j out) s),
             silently_cancelled s (step (JobDone j out) s)]) = 1
    \<and> artifact_produced s (step (JobDone j out) s) = (\<exists>b. out = Resolved b)
    \<and> failure_surfaced s (step (JobDone j out) s)
        = (out = Rejected NonError \<or> (\<exists>n m. out = Rejected (Error n m) \<and> n \<noteq> ''AbortError''))
    \<and> silently_cancelled s (step (JobDone j out) s)
        = (\<exists>m. out = Rejected (Error ''AbortError'' m))
    \<and> \<not> isProcessing (step (JobDone j out) s)
    \<and> progress (step (JobDone j out) s) = Num 0
    \<and> bar_width (step (JobDone j out) s) = None
    \<and> \<not> pending j (jobs (step (JobDone j out) s))"
  proof (cases out rule: outcome_cases)
    case (resolved b)
    show ?thesis
      unfolding resolved step_job_resolved [OF assms] using np
      by (simp add: release_fields artifact_produced_def failure_surfaced_def
            silently_cancelled_def bar_width_def butlast_self)
  next
    case (abort m)
    show ?thesis
      unfolding abort step_job_abort [OF assms] using np
      by (simp add: artifact_produced_def failure_surfaced_def
            silently_cancelled_def bar_width_def butlast_self)
  next
    case (error n m)
    show ?thesis
      unfolding error(1) step_job_error [OF assms error(2)] using np error(2)
      by (simp add: artifact_produced_def failure_surfaced_def
            silently_cancelled_def bar_width_def)
  next
    case nonerror
    show ?thesis
      unfolding nonerror step_job_nonerror [OF assms] using np
      by (simp add: artifact_produced_def failure_surfaced_def
            silently_cancelled_def bar_width_def)
  qed
  have r: "processedImage (step (JobDone j (Resolved b)) s) = Some (nextUrl s)
    \<and> (nextUrl s, b) \<in> set (objectUrls (step (JobDone j (Resolved b)) s))
    \<and> error (step (JobDone j (Resolved b)) s) = error s"
    unfolding step_job_resolved [OF assms]
    by (simp add: release_fields)
  have e: "n \<noteq> ''AbortError'' \<longrightarrow>
        step (JobDone j (Rejected (Error n m))) s
          = s\<lparr> jobs := remove j (jobs s), console := console s @ [Error n m],
               error := Some (''Failed to remove background: '' @ m),
               isProcessing := False, progress := Num 0, abortControllerRef := None \<rparr>"
    using step_job_error [OF assms] by blast
  from main r e step_job_abort [OF assms, of m] step_job_nonerror [OF assms]
  show ?thesis by blast
qed

theorem job_settles_one_way_witness:
  "pending 0 (jobs running)
   \<and> artifact_produced running (step (JobDone 0 (Resolved ''cutout'')) running)
   \<and> processedImage (step (JobDone 0 (Resolved ''cutout'')) running) = Some 0
   \<and> error (step (JobDone 0 (Rejected (Error ''AbortError'' ''aborted''))) running) = None
   \<and> console (step (JobDone 0 (Rejected (Error ''AbortError'' ''aborted''))) running) = []
   \<and> silently_cancelled running
        (step (JobDone 0 (Rejected (Error ''AbortError'' ''aborted''))) running)
   \<and> ''TypeError'' \<noteq> ''AbortError''
   \<and> error (step (JobDone 0 (Rejected (Error ''TypeError'' ''no model''))) running)
        = Some ''Failed to remove background: no model''
   \<and> failure_surfaced running
        (step (JobDone 0 (Rejected (Error ''TypeError'' ''no model''))) running)
   \<and> error (step (JobDone 0 (Rejected NonError)) running)
        = Some ''Failed to remove background. Please try again.''
   \<and> \<not> isProcessing (step (JobDone 0 (Resolved ''cutout'')) running)
   \<and> \<not> isProcessing (step (JobDone 0 (Rejected (Error ''AbortError'' ''aborted''))) running)
   \<and> \<not> isProcessing (step (JobDone 0 (Rejected (Error ''TypeError'' ''no model''))) running)
   \<and> progress (step (JobDone 0 (Rejected (Error ''TypeError'' ''no model''))) running) = Num 0"
proof -
  have h: "pending 0 (jobs running)" by (simp add: running_eq pending_def)
  have f: "nextUrl running = 0" "error running = None" "console running = []"
    by (simp_all add: running_eq)
  note a = job_settles_one_way [OF h, of "Resolved ''cutout''" "''no model''" "''TypeError''"
        "''cutout''"]
  note b = job_settles_one_way [OF h, of "Rejected (Error ''AbortError'' ''aborted'')"
        "''no model''" "''TypeError''" "''cutout''"]
  note c = job_settles_one_way [OF h, of "Rejected (Error ''TypeError'' ''no model'')"
        "''no model''" "''TypeError''" "''cutout''"]
  have a1: "artifact_produced running (step (JobDone 0 (Resolved ''cutout'')) running)"
    using a by blast
  have a2: "processedImage (step (JobDone 0 (Resolved ''cutout'')) running) = Some 0"
    using a f(1) by metis
  have a3: "\<not> isProcessing (step (JobDone 0 (Resolved ''cutout'')) running)"
    using a by blast
  have b1: "silently_cancelled running
        (step (JobDone 0 (Rejected (Error ''AbortError'' ''aborted''))) running)"
    using b by blast
  have b2: "\<not> isProcessing (step (JobDone 0 (Rejected (Error ''AbortError'' ''aborted''))) running)"
    using b by blast
  have b3: "error (step (JobDone 0 (Rejected (Error ''AbortError'' ''aborted''))) running) = None"
    and b4: "console (step (JobDone 0 (Rejected (Error ''AbortError'' ''aborted''))) running) = []"
    using b1 f by (simp_all add: silently_cancelled_def del: step.simps)
  have c0: "''TypeError'' \<noteq> ''AbortError''" by simp
  have c1: "failure_surfaced running
        (step (JobDone 0 (Rejected (Error ''TypeError'' ''no model''))) running)"
    using c c0 by blast
  have c2: "\<not> isProcessing (step (JobDone 0 (Rejected (Error ''TypeError'' ''no model''))) running)"
    using c by blast
  have c3: "progress (step (JobDone 0 (Rejected (Error ''TypeError'' ''no model''))) running) = Num 0"
    using c by blast
  have "step (JobDone 0 (Rejected (Error ''TypeError'' ''no model''))) running
      = running\<lparr> jobs := remove 0 (jobs running),
          console := console running @ [Error ''TypeError'' ''no model''],
          error := Some (''Failed to remove background: '' @ ''no model''),
          isProcessing := False, progress := Num 0, abortControllerRef := None \<rparr>"
    using c c0 by blast
  then have c4: "error (step (JobDone 0 (Rejected (Error ''TypeError'' ''no model''))) running)
        = Some ''Failed to remove background: no model''"
    by (simp del: step.simps)
  have "step (JobDone 0 (Rejected NonError)) running
      = running\<lparr> jobs := remove 0 (jobs running), console := console running @ [NonError],
          error := Some ''Failed to remove background. Please try again.'',
          isProcessing := False, progress := Num 0, abortControllerRef := None \<rparr>"
    using c by blast
  then have d: "error (step (JobDone 0 (Rejected NonError)) running)
        = Some ''Failed to remove background. Please try again.''"
    by (simp del: step.simps)
  from h a1 a2 a3 b1 b2 b3 b4 c0 c1 c2 c3 c4 d show ?thesis by blast
qed

section \<open>One artifact at a time\<close>

text \<open>
  Claim C2. In every state the component can reach from its initial state, by any sequence of
  events, at most one object URL is live, and it is the one the reference holds; no URL has
  been revoked twice, and no live URL has been revoked. From such a state \<^verbatim>\<open>clearImage\<close>
  and the unmount cleanup leave no URL live, and running either a second time revokes nothing
  more. When a call resolves with a blob, the URL that was live is revoked and the new URL is
  the only live one.
\<close>

theorem at_most_one_artifact:
  "length (objectUrls (run es init)) \<le> 1
   \<and> map fst (objectUrls (run es init))
       = (case processedUrlRef (run es init) of None \<Rightarrow> [] | Some u \<Rightarrow> [u])
   \<and> distinct (revoked (run es init))
   \<and> list_all (\<lambda>u. u \<notin> set (revoked (run es init))) (map fst (objectUrls (run es init)))
   \<and> objectUrls (clearImage (run es init)) = []
   \<and> objectUrls (unmount (run es init)) = []
   \<and> revoked (clearImage (clearImage (run es init))) = revoked (clearImage (run es init))
   \<and> unmount (unmount (run es init)) = unmount (run es init)
   \<and> map fst (objectUrls (processImage_resume (Resolved b) (run es init)))
       = [nextUrl (run es init)]
   \<and> revoked (processImage_resume (Resolved b) (run es init))
       = revoked (run es init) @ map fst (objectUrls (run es init))"
proof -
  let ?s = "run es init"
  have ok: "live_ok ?s" by (rule live_ok_reachable)
  then have m: "map fst (objectUrls ?s)
       = (case processedUrlRef ?s of None \<Rightarrow> [] | Some u \<Rightarrow> [u])"
    and d: "distinct (revoked ?s)"
    and n0: "list_all (\<lambda>u. u < nextUrl ?s \<and> u \<notin> set (revoked ?s))
               (map fst (objectUrls ?s))"
    unfolding live_ok_def by blast+
  from n0 have n: "list_all (\<lambda>u. u \<notin> set (revoked ?s)) (map fst (objectUrls ?s))"
    unfolding list_all_iff by blast
  have "length (map fst (objectUrls ?s)) \<le> 1"
    unfolding m by (simp split: option.splits)
  then have l: "length (objectUrls ?s) \<le> 1" by simp
  from live_ok_release [OF ok] have r: "objectUrls (release_processed ?s) = []" by simp
  have "live_ok (abort_current ?s) = live_ok ?s"
    by (rule live_ok_cong) (simp_all add: abort_current_def split: option.splits)
  with ok have "objectUrls (release_processed (abort_current ?s)) = []"
    using live_ok_release by blast
  then have c: "objectUrls (clearImage ?s) = []" by (simp add: clearImage_def)
  have u: "objectUrls (unmount ?s) = []" using r by (simp add: unmount_def)
  have p: "map fst (objectUrls (processImage_resume (Resolved b) ?s)) = [nextUrl ?s]"
    using r by (simp add: resume_resolved)
  have q: "revoked (processImage_resume (Resolved b) ?s)
       = revoked ?s @ map fst (objectUrls ?s)"
    unfolding m
    by (cases "processedUrlRef ?s") (simp_all add: resume_resolved release_none release_some)
  from l m d n c u p q show ?thesis
    by (simp add: clear_twice_revoked unmount_def release_twice)
qed

theorem at_most_one_artifact_witness:
  "objectUrls (run a_then_b init) = [(1, ''cutout-b'')]
   \<and> revoked (run a_then_b init) = [0]
   \<and> objectUrls (clearImage (run a_then_b init)) = []
   \<and> revoked (clearImage (run a_then_b init)) = [0, 1]
   \<and> revoked (clearImage (clearImage (run a_then_b init))) = [0, 1]
   \<and> revoked (unmount (run a_then_b init)) = [0, 1]
   \<and> objectUrls (processImage_resume (Resolved ''cutout-c'') (run a_then_b init))
        = [(2, ''cutout-c'')]
   \<and> revoked (processImage_resume (Resolved ''cutout-c'') (run a_then_b init)) = [0, 1]"
  using at_most_one_artifact [of a_then_b "''cutout-c''"]
  by (simp add: a_then_b_eq handler_defs)

section \<open>The progress indicator\<close>

text \<open>
  Claim C6, as the code has it. While a call is pending and the indicator is shown, a
  progress callback \<^verbatim>\<open>(key, current, total)\<close> with finite \<^verbatim>\<open>0 <= current <= total\<close> and
  \<^verbatim>\<open>0 < total\<close> stores a progress \<^verbatim>\<open>p = (current / total) * 100\<close> between 0 and 100. The width
  of the bar is \<^verbatim>\<open>Math.max(4, p)\<close> percent, between 4 and 100. The percentage written beside
  it is \<^verbatim>\<open>Math.round(p)\<close>, between 0 and 100: it has no floor.
\<close>

theorem progress_in_contract:
  assumes "pending j (jobs s)" and "image_src s \<noteq> None" and "isProcessing s"
    and "0 \<le> c" and "c \<le> t" and "0 < t"
  shows "\<exists>p. progress (step (Progress j key (Num c) (Num t)) s) = Num p
    \<and> progress_pct (Num c) (Num t) = Num p
    \<and> 0 \<le> p \<and> p \<le> 100
    \<and> bar_width (step (Progress j key (Num c) (Num t)) s) = Some (Num (max 4 p))
    \<and> 4 \<le> max 4 p \<and> max 4 p \<le> 100
    \<and> progress_label (step (Progress j key (Num c) (Num t)) s)
        = Some (Num (of_int \<lfloor>p + 1 / 2\<rfloor>))
    \<and> 0 \<le> \<lfloor>p + 1 / 2\<rfloor> \<and> \<lfloor>p + 1 / 2\<rfloor> \<le> 100"
proof -
  from pct_in_contract [OF assms(4,5,6)] obtain p where
    p: "progress_pct (Num c) (Num t) = Num p" "0 \<le> p" "p \<le> 100" by blast
  have s: "step (Progress j key (Num c) (Num t)) s = s\<lparr> progress := Num p \<rparr>"
    using assms(1) by (simp add: onProgress_def p(1))
  have f: "0 \<le> \<lfloor>p + 1 / 2\<rfloor>" "\<lfloor>p + 1 / 2\<rfloor> \<le> 100"
    using p(2,3) by linarith+
  show ?thesis
    unfolding s using assms(2,3) p f
    by (intro exI [of _ p]) (simp add: bar_width_def progress_label_def)
qed

theorem progress_in_contract_witness:
  "pending 0 (jobs running) \<and> image_src running \<noteq> None \<and> isProcessing running
   \<and> (0::real) \<le> 7 \<and> (7::real) \<le> 100 \<and> (0::real) < 100
   \<and> progress (step (Progress 0 ''compute:inference'' (Num 7) (Num 100)) running)
       = Num (7881299347898369 / 2 ^ 50)
   \<and> bar_width (step (Progress 0 ''compute:inference'' (Num 7) (Num 100)) running)
       = Some (Num (7881299347898369 / 2 ^ 50))
   \<and> progress_label (step (Progress 0 ''compute:inference'' (Num 7) (Num 100)) running)
       = Some (Num 7)
   \<and> bar_width (step (Progress 0 ''compute:inference'' (Num 1) (Num 100)) running)
       = Some (Num 4)"
proof -
  have h1: "pending 0 (jobs running)" by (simp add: running_eq pending_def)
  have h2: "image_src running \<noteq> None" by (simp add: running_eq)
  have h3: "isProcessing running" by (simp add: running_eq)
  from progress_in_contract [OF h1 h2 h3, of 7 100 "''compute:inference''"]
  obtain p where p: "progress_pct (Num 7) (Num 100) = Num p"
    "progress (step (Progress 0 ''compute:inference'' (Num 7) (Num 100)) running) = Num p"
    "bar_width (step (Progress 0 ''compute:inference'' (Num 7) (Num 100)) running)
       = Some (Num (max 4 p))"
    "progress_label (step (Progress 0 ''compute:inference'' (Num 7) (Num 100)) running)
        = Some (Num (of_int \<lfloor>p + 1 / 2\<rfloor>))"
    by auto
  from p(1) have e: "p = 7881299347898369 / 2 ^ 50" by (simp add: pct_7_100)
  have m: "max 4 p = 7881299347898369 / 2 ^ 50" unfolding e by simp
  have r: "\<lfloor>p + 1 / 2\<rfloor> = 7" unfolding e by simp
  from progress_in_contract [OF h1 h2 h3, of 1 100 "''compute:inference''"]
  obtain q where q: "progress_pct (Num 1) (Num 100) = Num q"
    "bar_width (step (Progress 0 ''compute:inference'' (Num 1) (Num 100)) running)
       = Some (Num (max 4 q))"
    by auto
  from q(1) have "q = 1" by (simp add: pct_1_100)
  with q(2) have b: "bar_width (step (Progress 0 ''compute:inference'' (Num 1) (Num 100)) running)
       = Some (Num 4)" by (simp del: step.simps)
  from h1 h2 h3 p(2,3,4) b show ?thesis
    unfolding m r unfolding e by (simp del: step.simps)
qed

text \<open>
  The claim as stated, with every displayed value at least 4, fails for the percentage: after
  the callback \<^verbatim>\<open>(key, 1, 100)\<close> on the pending call of \<open>running\<close> the label reads 1.
\<close>

theorem progress_floor_counterexample:
  "pending 0 (jobs running) \<and> image_src running \<noteq> None \<and> isProcessing running
   \<and> progress_label (step (Progress 0 ''compute:inference'' (Num 1) (Num 100)) running)
       = Some (Num 1)
   \<and> \<not> (4 \<le> (1::real))"
  by (simp add: running_eq pending_def onProgress_def progress_label_def pct_1_100)

section \<open>A superseded call\<close>

text \<open>
  Claim C1 at a concrete run. \<^verbatim>\<open>a.png\<close> is submitted and read, and its call of the library
  is pending when \<^verbatim>\<open>b.png\<close> is submitted and read. Starting the call for \<^verbatim>\<open>b.png\<close> aborts the
  controller of the first call (the first flag of \<open>controllers\<close>). The call for \<^verbatim>\<open>b.png\<close>
  resolves, then the call for \<^verbatim>\<open>a.png\<close> resolves: its blob is not discarded. The object URL
  of the cutout of \<^verbatim>\<open>b.png\<close> is revoked, and the processed image shown under the name
  \<^verbatim>\<open>b.png\<close> is the cutout of \<^verbatim>\<open>a.png\<close>.
\<close>

theorem superseded_result_is_applied:
  "run b_overtakes_a init = \<lparr> image_src = Some ''data:b'', processedImage = Some 1,
      fileName = Some ''b.png'', fileSize = Some 2000,
      isDragging = False, error = None, isProcessing = False, progress = Num 0,
      useCheckerboard = True, originalLoaded = False, processedLoaded = False,
      abortControllerRef = None, processedUrlRef = Some 1,
      controllers = [True, False], objectUrls = [(1, ''cutout-a'')], revoked = [0],
      nextUrl = 2, readers = [], nextReader = 2, jobs = [], nextJob = 2,
      console = [], downloads = [] \<rparr>"
  by (simp add: b_overtakes_a_def a_png_def b_png_def init_def handler_defs)

end
